theory Spec2Isabelle
  imports Complex_Main "HOL-Library.Char_ord" "HOL-Library.List_Lexorder" "HOL-Library.Log_Nat"
begin

section \<open>Data model of cricket_analytics_app.py\<close>

text \<open>
  The two input tables are lists of rows, in file order. A column that pandas may hold
  as NaN is an \<open>option\<close>: \<open>winner\<close>, \<open>dismissal_kind\<close>, \<open>fielder\<close>, and the derived
  \<open>year\<close>. The \<open>date\<close> column is a string in the file and a timestamp (or NaT) after
  \<open>load_data\<close>, so the row type is parametric in it.
\<close>

type_synonym datetime = "int \<times> int \<times> int"

record 'd match_cols =
  m_id :: int
  date :: 'd
  season :: string
  venue :: string
  team1 :: string
  team2 :: string
  toss_winner :: string
  toss_decision :: string
  winner :: "string option"
  result :: string

type_synonym csv_match = "string match_cols"

record match = "datetime option match_cols" +
  year :: "int option"

record delivery =
  match_id :: int
  inning :: int
  batting_team :: string
  batter :: string
  bowler :: string
  non_striker :: string
  batsman_runs :: int
  total_runs :: int
  ball :: int
  is_wicket :: int
  dismissal_kind :: "string option"
  fielder :: "string option"

section \<open>pandas primitives used by the script\<close>

text \<open>\<open>Series.unique\<close> and \<open>drop_duplicates\<close>: first occurrences, in order.\<close>

definition unique :: "'a list \<Rightarrow> 'a list" where
  "unique xs = rev (remdups (rev xs))"

text \<open>Comparisons on a float column holding NaN: NaN compares false.\<close>

definition gt :: "int option \<Rightarrow> int \<Rightarrow> bool" where
  "gt y n = (case y of None \<Rightarrow> False | Some v \<Rightarrow> n < v)"

definition between :: "int option \<Rightarrow> int \<Rightarrow> int \<Rightarrow> bool" where
  "between y lo hi = (case y of None \<Rightarrow> False | Some v \<Rightarrow> lo \<le> v \<and> v \<le> hi)"

text \<open>
  \<open>groupby(key)\<close>: one group per distinct key, keys in ascending order, each group
  holding its rows in frame order.
\<close>

definition groupby :: "('r \<Rightarrow> 'k::linorder) \<Rightarrow> 'r list \<Rightarrow> ('k \<times> 'r list) list" where
  "groupby key rows =
     map (\<lambda>k. (k, filter (\<lambda>r. key r = k) rows)) (sort (remdups (map key rows)))"

text \<open>
  \<open>sort_values(ascending=False)\<close>. pandas leaves the order of equal values to the
  sorting algorithm; the model keeps them in frame order.
\<close>

definition sort_values_desc :: "('r \<Rightarrow> 'v::{linorder,uminus}) \<Rightarrow> 'r list \<Rightarrow> 'r list" where
  "sort_values_desc f rows = sort_key (\<lambda>r. - f r) rows"

definition head :: "nat \<Rightarrow> 'r list \<Rightarrow> 'r list" where
  "head n rows = take n rows"

text \<open>\<open>Series.value_counts\<close>: NaN dropped, one count per value, descending.\<close>

definition value_counts :: "'a option list \<Rightarrow> ('a \<times> int) list" where
  "value_counts col =
     (let vals = concat (map (\<lambda>v. case v of None \<Rightarrow> [] | Some x \<Rightarrow> [x]) col)
      in sort_values_desc snd
           (map (\<lambda>k. (k, int (length (filter (\<lambda>x. x = k) vals)))) (unique vals)))"

text \<open>
  Arithmetic on float64 columns. A float64 value is the rational it denotes;
  \<open>float64\<close> rounds a rational to 53 significant bits, to nearest and ties to even
  (the exponent range is not modelled: the quotients below are far from it).
  \<open>truediv\<close> is \<open>/\<close> on two int64 columns: both sides are converted, then
  divided. \<open>fmul\<close> is \<open>*\<close> on float64.
\<close>

definition pow2 :: "int \<Rightarrow> rat" where
  "pow2 e = (if 0 \<le> e then 2 ^ nat e else 1 / 2 ^ nat (- e))"

definition ilog2 :: "rat \<Rightarrow> int" where
  "ilog2 x = (case quotient_of x of (p, q) \<Rightarrow>
     (let k = bitlen p - bitlen q in if pow2 k \<le> x then k else k - 1))"

definition round_half_even :: "rat \<Rightarrow> int" where
  "round_half_even x =
     (let f = \<lfloor>x\<rfloor>; d = x - of_int f
      in if d < 1 / 2 then f else if 1 / 2 < d then f + 1 else if even f then f else f + 1)"

definition float64 :: "rat \<Rightarrow> rat" where
  "float64 x =
     (if x = 0 then 0
      else (let e = ilog2 \<bar>x\<bar> - 52
            in sgn x * of_int (round_half_even (\<bar>x\<bar> / pow2 e)) * pow2 e))"

definition truediv :: "int \<Rightarrow> int \<Rightarrow> rat" where
  "truediv a b = float64 (float64 (of_int a) / float64 (of_int b))"

definition fmul :: "rat \<Rightarrow> rat \<Rightarrow> rat" where
  "fmul x y = float64 (x * y)"

section \<open>Loading: date normalisation and the join\<close>



text \<open>
  \<open>deliveries.merge(matches, left_on='match_id', right_on='id', how='left')\<close>:
  a delivery with no matching id keeps one row with the match side null.
\<close>

type_synonym merged_row = "delivery \<times> match option"

definition merge_left :: "delivery list \<Rightarrow> match list \<Rightarrow> merged_row list" where
  "merge_left ds ms =
     concat (map (\<lambda>d. case filter (\<lambda>m. m_id m = match_id d) ms of
                          [] \<Rightarrow> [(d, None)]
                        | hits \<Rightarrow> map (\<lambda>m. (d, Some m)) hits) ds)"


section \<open>Classification rules\<close>

definition bat_first_won :: "('d, 'z) match_cols_scheme \<Rightarrow> bool" where
  "bat_first_won row =
     (if result row \<in> set [''tie'', ''no result''] then False
      else if toss_decision row = ''bat'' then Some (toss_winner row) = winner row
      else Some (toss_winner row) \<noteq> winner row)"

definition field_first_won :: "('d, 'z) match_cols_scheme \<Rightarrow> bool" where
  "field_first_won row =
     (if result row \<in> set [''tie'', ''no result''] then False
      else if toss_decision row = ''field'' then Some (toss_winner row) = winner row
      else Some (toss_winner row) \<noteq> winner row)"

section \<open>Veterans and the post-2020 frame\<close>

definition early_seasons :: "match list \<Rightarrow> int list" where
  "early_seasons matches = unique (map m_id (filter (\<lambda>m. between (year m) 2008 2012) matches))"

text \<open>
  The frame \<open>deliveries[deliveries['match_id'].isin(early_seasons)]\<close>, which the
  script writes out once for the batters and once for the bowlers.
\<close>

definition early_deliveries :: "match list \<Rightarrow> delivery list \<Rightarrow> delivery list" where
  "early_deliveries matches deliveries =
     filter (\<lambda>d. match_id d \<in> set (early_seasons matches)) deliveries"

definition early_players_bat :: "match list \<Rightarrow> delivery list \<Rightarrow> string list" where
  "early_players_bat matches deliveries = unique (map batter (early_deliveries matches deliveries))"

definition early_players_bowl :: "match list \<Rightarrow> delivery list \<Rightarrow> string list" where
  "early_players_bowl matches deliveries = unique (map bowler (early_deliveries matches deliveries))"

definition all_veterans :: "match list \<Rightarrow> delivery list \<Rightarrow> string set" where
  "all_veterans matches deliveries =
     set (early_players_bat matches deliveries) \<union> set (early_players_bowl matches deliveries)"

definition post_2020_matches :: "match list \<Rightarrow> int list" where
  "post_2020_matches matches = unique (map m_id (filter (\<lambda>m. gt (year m) 2020) matches))"

definition post_2020_data :: "match list \<Rightarrow> delivery list \<Rightarrow> delivery list" where
  "post_2020_data matches deliveries =
     filter (\<lambda>d. match_id d \<in> set (post_2020_matches matches)) deliveries"

section \<open>Tab 1: player statistics\<close>

definition fr1_data :: "match list \<Rightarrow> delivery list \<Rightarrow> delivery list" where
  "fr1_data matches deliveries =
     filter (\<lambda>d. batter d \<notin> set (early_players_bat matches deliveries))
       (post_2020_data matches deliveries)"

definition top_scorers :: "match list \<Rightarrow> delivery list \<Rightarrow> (string \<times> int) list" where
  "top_scorers matches deliveries =
     head 10 (sort_values_desc snd
       (map (\<lambda>(k, g). (k, sum_list (map batsman_runs g)))
          (groupby batter (fr1_data matches deliveries))))"

text \<open>
  The strike-rate table. \<open>'ball': 'count'\<close> counts the rows of the group. The strike
  rate is computed in float64, as \<open>(batsman_runs / ball) * 100\<close> is.
\<close>

record sr_row =
  sr_batter :: string
  sr_batsman_runs :: int
  sr_ball :: int
  strike_rate :: rat

definition stats :: "match list \<Rightarrow> delivery list \<Rightarrow> (string \<times> int \<times> int) list" where
  "stats matches deliveries =
     filter (\<lambda>(k, runs, balls). 50 \<le> balls)
       (map (\<lambda>(k, g). (k, sum_list (map batsman_runs g), int (length (map ball g))))
          (groupby batter (post_2020_data matches deliveries)))"

definition with_strike_rate :: "string \<times> int \<times> int \<Rightarrow> sr_row" where
  "with_strike_rate = (\<lambda>(k, runs, balls).
     \<lparr> sr_batter = k, sr_batsman_runs = runs, sr_ball = balls,
       strike_rate = fmul (truediv runs balls) 100 \<rparr>)"

definition top_sr :: "match list \<Rightarrow> delivery list \<Rightarrow> sr_row list" where
  "top_sr matches deliveries =
     head 10 (sort_values_desc strike_rate (map with_strike_rate (stats matches deliveries)))"



definition not_bowler_wicket :: "string list" where
  "not_bowler_wicket = [''run out'', ''retired hurt'', ''obstructing the field'']"

definition fr4_data :: "match list \<Rightarrow> delivery list \<Rightarrow> delivery list" where
  "fr4_data matches deliveries =
     filter (\<lambda>d. bowler d \<notin> set (early_players_bowl matches deliveries))
       (post_2020_data matches deliveries)"

definition wickets :: "delivery list \<Rightarrow> delivery list" where
  "wickets frame =
     filter (\<lambda>d. \<not> (case dismissal_kind d of None \<Rightarrow> False
                                            | Some k \<Rightarrow> k \<in> set not_bowler_wicket))
       (filter (\<lambda>d. is_wicket d = 1) frame)"

definition top_bowlers :: "match list \<Rightarrow> delivery list \<Rightarrow> (string \<times> int) list" where
  "top_bowlers matches deliveries =
     head 10 (value_counts (map (\<lambda>d. Some (bowler d)) (wickets (fr4_data matches deliveries))))"

section \<open>Tab 4: the veteran variants\<close>

definition fr1_vet_data :: "match list \<Rightarrow> delivery list \<Rightarrow> delivery list" where
  "fr1_vet_data matches deliveries =
     filter (\<lambda>d. batter d \<in> set (early_players_bat matches deliveries))
       (post_2020_data matches deliveries)"

definition top_vet_scorers :: "match list \<Rightarrow> delivery list \<Rightarrow> (string \<times> int) list" where
  "top_vet_scorers matches deliveries =
     head 10 (sort_values_desc snd
       (map (\<lambda>(k, g). (k, sum_list (map batsman_runs g)))
          (groupby batter (fr1_vet_data matches deliveries))))"

definition fr4_vet_data :: "match list \<Rightarrow> delivery list \<Rightarrow> delivery list" where
  "fr4_vet_data matches deliveries =
     filter (\<lambda>d. bowler d \<in> set (early_players_bowl matches deliveries))
       (post_2020_data matches deliveries)"

definition top_vet_bowlers :: "match list \<Rightarrow> delivery list \<Rightarrow> (string \<times> int) list" where
  "top_vet_bowlers matches deliveries =
     head 10 (value_counts (map (\<lambda>d. Some (bowler d)) (wickets (fr4_vet_data matches deliveries))))"

section \<open>Tab 2: stadium statistics\<close>

text \<open>
  The columns \<open>bat_first_win\<close> and \<open>field_first_win\<close> that the script adds to
  \<open>matches\<close> are the two classifications applied to each row. A sum over a boolean
  column counts its true entries.
\<close>

definition sum_bool :: "('r \<Rightarrow> bool) \<Rightarrow> 'r list \<Rightarrow> int" where
  "sum_bool col rows = sum_list (map (\<lambda>r. if col r then 1 else 0) rows)"

record venue_row =
  vs_venue :: string
  total_matches :: int
  bat_first_wins :: int
  field_first_wins :: int
  bat_first_pct :: rat
  field_first_pct :: rat

definition venue_agg :: "match list \<Rightarrow> (string \<times> int \<times> int \<times> int) list" where
  "venue_agg matches =
     map (\<lambda>(k, g). (k, int (length (map m_id g)), sum_bool bat_first_won g,
                     sum_bool field_first_won g))
       (groupby venue matches)"

definition venue_stats :: "match list \<Rightarrow> venue_row list" where
  "venue_stats matches =
     map (\<lambda>(k, n, b, f).
            \<lparr> vs_venue = k, total_matches = n, bat_first_wins = b, field_first_wins = f,
              bat_first_pct = fmul (truediv b n) 100,
              field_first_pct = fmul (truediv f n) 100 \<rparr>)
       (filter (\<lambda>(k, n, b, f). 10 \<le> n) (venue_agg matches))"





section \<open>Tab 3: team statistics\<close>




text \<open>An inner \<open>merge\<close>: every pair of rows with equal keys, in the order of the left frame.\<close>

definition merge_inner :: "('a \<Rightarrow> 'k) \<Rightarrow> ('b \<Rightarrow> 'k) \<Rightarrow> 'a list \<Rightarrow> 'b list \<Rightarrow> ('a \<times> 'b) list" where
  "merge_inner lkey rkey left right =
     concat (map (\<lambda>l. map (\<lambda>r. (l, r)) (filter (\<lambda>r. rkey r = lkey l) right)) left)"



section \<open>Tab 5: coach statistics\<close>

record player_team =
  pt_match_id :: int
  player :: string
  team :: string

text \<open>The team of a player in a match is read off the rows in which the player bats.\<close>

definition batters :: "delivery list \<Rightarrow> player_team list" where
  "batters deliveries =
     unique (map (\<lambda>d. \<lparr> pt_match_id = match_id d, player = batter d, team = batting_team d \<rparr>)
               deliveries)"

definition vet_teams :: "match list \<Rightarrow> delivery list \<Rightarrow> player_team list" where
  "vet_teams matches deliveries =
     filter (\<lambda>r. player r \<in> all_veterans matches deliveries) (batters deliveries)"

record vet_perf_row = player_team +
  vp_id :: int
  vp_winner :: "string option"
  bat_first_win :: bool
  field_first_win :: bool
  won :: bool

definition vet_perf :: "match list \<Rightarrow> delivery list \<Rightarrow> vet_perf_row list" where
  "vet_perf matches deliveries =
     map (\<lambda>(t, m).
            \<lparr> pt_match_id = pt_match_id t, player = player t, team = team t,
              vp_id = m_id m, vp_winner = winner m,
              bat_first_win = bat_first_won m, field_first_win = field_first_won m,
              won = (Some (team t) = winner m) \<rparr>)
       (merge_inner pt_match_id m_id (vet_teams matches deliveries) matches)"

record win_row =
  ws_player :: string
  ws_matches :: int
  ws_wins :: int
  win_pct :: rat

definition vet_win_stats :: "match list \<Rightarrow> delivery list \<Rightarrow> win_row list" where
  "vet_win_stats matches deliveries =
     map (\<lambda>(k, n, w).
            \<lparr> ws_player = k, ws_matches = n, ws_wins = w,
              win_pct = fmul (truediv w n) 100 \<rparr>)
       (filter (\<lambda>(k, n, w). 50 \<le> n)
          (map (\<lambda>(k, g). (k, int (length (map vp_id g)), sum_bool won g))
             (groupby player (vet_perf matches deliveries))))"

definition top_coaches_win :: "match list \<Rightarrow> delivery list \<Rightarrow> win_row list" where
  "top_coaches_win matches deliveries =
     head 10 (sort_values_desc win_pct (vet_win_stats matches deliveries))"

record vet_perf_full_row = vet_perf_row +
  vf_toss_winner :: string
  vf_toss_decision :: string

definition vet_perf_full :: "match list \<Rightarrow> delivery list \<Rightarrow> vet_perf_full_row list" where
  "vet_perf_full matches deliveries =
     map (\<lambda>(r, m).
            \<lparr> pt_match_id = pt_match_id r, player = player r, team = team r,
              vp_id = vp_id r, vp_winner = vp_winner r,
              bat_first_win = bat_first_win r, field_first_win = field_first_win r,
              won = won r,
              vf_toss_winner = toss_winner m, vf_toss_decision = toss_decision m \<rparr>)
       (merge_inner vp_id m_id (vet_perf matches deliveries) matches)"

text \<open>The placeholder the script defines first and never applies.\<close>

definition is_chase_win :: "('z) vet_perf_row_scheme \<Rightarrow> bool" where
  "is_chase_win row = (if \<not> won row then False else False)"

definition check_chase :: "vet_perf_full_row \<Rightarrow> bool" where
  "check_chase row =
     (if \<not> won row then False
      else if vf_toss_decision row = ''field'' \<and> vf_toss_winner row = team row then True
      else if vf_toss_decision row = ''bat'' \<and> vf_toss_winner row \<noteq> team row then True
      else False)"

definition chase_win :: "match list \<Rightarrow> delivery list \<Rightarrow> (vet_perf_full_row \<times> bool) list" where
  "chase_win matches deliveries =
     map (\<lambda>r. (r, check_chase r)) (vet_perf_full matches deliveries)"

definition chase_stats :: "match list \<Rightarrow> delivery list \<Rightarrow> (string \<times> int) list" where
  "chase_stats matches deliveries =
     head 10 (sort_values_desc snd
       (map (\<lambda>(k, g). (k, sum_bool snd g))
          (groupby (\<lambda>r. player (fst r)) (chase_win matches deliveries))))"

definition experience :: "match list \<Rightarrow> delivery list \<Rightarrow> (string \<times> int) list" where
  "experience matches deliveries =
     head 10 (sort_values_desc snd
       (map (\<lambda>(k, g). (k, int (length (map vp_id g))))
          (groupby player (vet_perf matches deliveries))))"

section \<open>Example tables\<close>

text \<open>
  A season-2009 match and a season-2021 match. \<open>X\<close> bats and \<open>P\<close> bowls in 2009;
  in 2021 \<open>P\<close> bats, \<open>X\<close> bats against \<open>P\<close>, and two newcomers \<open>N\<close> and \<open>M\<close> play.
\<close>

definition scenario_match2 :: csv_match where
  "scenario_match2 =
     \<lparr> m_id = 2, date = ''2021-04-10'', season = ''2021'', venue = ''V'',
       team1 = ''A'', team2 = ''B'', toss_winner = ''A'', toss_decision = ''field'',
       winner = Some ''B'', result = ''normal'' \<rparr>"

definition ex_matches :: "match list" where
  "ex_matches =
     [\<lparr> m_id = 1, date = Some (2009, 4, 18), season = ''2009'', venue = ''V'',
        team1 = ''A'', team2 = ''B'', toss_winner = ''B'', toss_decision = ''field'',
        winner = Some ''A'', result = ''normal'', year = Some 2009 \<rparr>,
      \<lparr> m_id = 2, date = Some (2021, 4, 18), season = ''2021'', venue = ''V'',
        team1 = ''A'', team2 = ''B'', toss_winner = ''A'', toss_decision = ''bat'',
        winner = Some ''B'', result = ''normal'', year = Some 2021 \<rparr>]"

definition ex_delivery :: "int \<Rightarrow> string \<Rightarrow> string \<Rightarrow> string \<Rightarrow> int \<Rightarrow> delivery" where
  "ex_delivery mid tm bat bowl runs =
     \<lparr> match_id = mid, inning = 1, batting_team = tm, batter = bat, bowler = bowl,
       non_striker = ''Z'', batsman_runs = runs, total_runs = runs, ball = 1,
       is_wicket = 0, dismissal_kind = None, fielder = None \<rparr>"

definition ex_deliveries :: "delivery list" where
  "ex_deliveries =
     [ex_delivery 1 ''A'' ''X'' ''P'' 1,
      ex_delivery 2 ''B'' ''P'' ''Y'' 4,
      (ex_delivery 2 ''A'' ''X'' ''P'' 0)
        \<lparr> inning := 2, is_wicket := 1, dismissal_kind := Some ''bowled'' \<rparr>,
      (ex_delivery 2 ''A'' ''N'' ''M'' 0)
        \<lparr> inning := 2, is_wicket := 1, dismissal_kind := Some ''caught'', fielder := Some ''F'' \<rparr>]"

definition ex_chase_row :: vet_perf_full_row where
  "ex_chase_row =
     \<lparr> pt_match_id = 2, player = ''P'', team = ''B'', vp_id = 2, vp_winner = Some ''B'',
       bat_first_win = False, field_first_win = True, won = True,
       vf_toss_winner = ''A'', vf_toss_decision = ''bat'' \<rparr>"

definition odd_decision_match :: csv_match where
  "odd_decision_match =
     \<lparr> m_id = 3, date = ''2021-04-11'', season = ''2021'', venue = ''V'',
       team1 = ''A'', team2 = ''B'', toss_winner = ''A'', toss_decision = ''Field'',
       winner = Some ''B'', result = ''normal'' \<rparr>"

definition ex_orphans :: "delivery list" where
  "ex_orphans = [ex_delivery 99 ''A'' ''X'' ''P'' 1, ex_delivery 1 ''A'' ''X'' ''P'' 1]"

text \<open>
  Ten decided matches at venue \<open>V\<close>; nine decided matches and one tie at venue \<open>W\<close>.
\<close>

definition ex_venue_matches :: "match list" where
  "ex_venue_matches =
     map (\<lambda>i. (ex_matches ! 1) \<lparr> m_id := i \<rparr>) [1..10]
     @ map (\<lambda>i. (ex_matches ! 1) \<lparr> m_id := i, venue := ''W'' \<rparr>) [11..19]
     @ [(ex_matches ! 1) \<lparr> m_id := 20, venue := ''W'', winner := None, result := ''tie'' \<rparr>]"

text \<open>
  Balls faced: fifty by \<open>P\<close> (four runs each), forty-nine by \<open>N\<close> and fifty by
  \<open>Q\<close> (seven runs in all) in the 2021 match, and sixty by \<open>X\<close> in the 2009 match.
\<close>

definition ex_sr_deliveries :: "delivery list" where
  "ex_sr_deliveries =
     replicate 50 (ex_delivery 2 ''B'' ''P'' ''Y'' 4)
     @ replicate 49 (ex_delivery 2 ''A'' ''N'' ''M'' 6)
     @ replicate 60 (ex_delivery 1 ''A'' ''X'' ''P'' 6)
     @ replicate 7 (ex_delivery 2 ''B'' ''Q'' ''Y'' 1)
     @ replicate 43 (ex_delivery 2 ''B'' ''Q'' ''Y'' 0)"





section \<open>The classification rules\<close>

text \<open>
  C2, as the script computes it. The scenario row has \<open>toss_winner = A\<close>,
  \<open>toss_decision = field\<close>, \<open>winner = B\<close>, \<open>result = normal\<close>. The claim says
  \<open>field_first_won\<close> is true there; the function takes its second branch and returns
  \<open>toss_winner == winner\<close>, which is false.
\<close>

theorem field_first_won_scenario_false: "\<not> field_first_won scenario_match2"
  by (simp add: field_first_won_def scenario_match2_def)

text \<open>
  C2, amended: on every row with \<open>toss_winner = A\<close>, \<open>toss_decision = field\<close>,
  \<open>winner = B\<close> and \<open>result = normal\<close>, \<open>field_first_won\<close> returns false (and
  \<open>bat_first_won\<close> returns true: the side that batted first won).
\<close>

theorem field_first_won_scenario:
  assumes "toss_winner row = ''A''" and "toss_decision row = ''field''"
    and "winner row = Some ''B''" and "result row = ''normal''"
  shows "\<not> field_first_won row \<and> bat_first_won row"
  using assms by (simp add: field_first_won_def bat_first_won_def)

theorem field_first_won_scenario_witness:
  "toss_winner scenario_match2 = ''A'' \<and> toss_decision scenario_match2 = ''field''
   \<and> winner scenario_match2 = Some ''B'' \<and> result scenario_match2 = ''normal''
   \<and> \<not> field_first_won scenario_match2 \<and> bat_first_won scenario_match2"
proof -
  have h: "toss_winner scenario_match2 = ''A''" "toss_decision scenario_match2 = ''field''"
    "winner scenario_match2 = Some ''B''" "result scenario_match2 = ''normal''"
    by (simp_all add: scenario_match2_def)
  from field_first_won_scenario [OF h] h show ?thesis by simp
qed

text \<open>
  C3: on a row whose result is neither \<open>tie\<close> nor \<open>no result\<close> and whose toss decision
  is \<open>bat\<close> or \<open>field\<close>, exactly one of \<open>bat_first_won\<close> and \<open>field_first_won\<close> is
  true; on a row whose result is \<open>tie\<close> or \<open>no result\<close> both are false. This holds
  whether or not the winner is empty.
\<close>

theorem bat_field_exclusive:
  "(result row \<notin> {''tie'', ''no result''} \<and> toss_decision row \<in> {''bat'', ''field''}
      \<longrightarrow> bat_first_won row \<noteq> field_first_won row)
   \<and> (result row \<in> {''tie'', ''no result''}
      \<longrightarrow> \<not> bat_first_won row \<and> \<not> field_first_won row)"
  by (auto simp add: field_first_won_def bat_first_won_def)

theorem bat_field_exclusive_witness:
  "result scenario_match2 \<notin> {''tie'', ''no result''}
   \<and> toss_decision scenario_match2 \<in> {''bat'', ''field''}
   \<and> bat_first_won scenario_match2 \<noteq> field_first_won scenario_match2
   \<and> result (scenario_match2 \<lparr> result := ''tie'', winner := None \<rparr>) \<in> {''tie'', ''no result''}
   \<and> \<not> bat_first_won (scenario_match2 \<lparr> result := ''tie'', winner := None \<rparr>)
   \<and> \<not> field_first_won (scenario_match2 \<lparr> result := ''tie'', winner := None \<rparr>)"
proof -
  have a: "result scenario_match2 \<notin> {''tie'', ''no result''}
      \<and> toss_decision scenario_match2 \<in> {''bat'', ''field''}"
    by (simp add: scenario_match2_def)
  have b: "result (scenario_match2 \<lparr> result := ''tie'', winner := None \<rparr>) \<in> {''tie'', ''no result''}"
    by simp
  from a b bat_field_exclusive [of scenario_match2]
    bat_field_exclusive [of "scenario_match2 \<lparr> result := ''tie'', winner := None \<rparr>"]
  show ?thesis by blast
qed

text \<open>
  C10: on a row whose result is neither \<open>tie\<close> nor \<open>no result\<close> and whose toss decision
  is neither \<open>bat\<close> nor \<open>field\<close>, both classifications return
  \<open>toss_winner != winner\<close>; so when the toss winner is not the winner both are true.
\<close>

theorem other_decision_both:
  assumes "result row \<notin> {''tie'', ''no result''}"
    and "toss_decision row \<noteq> ''bat''" and "toss_decision row \<noteq> ''field''"
  shows "bat_first_won row = (Some (toss_winner row) \<noteq> winner row)
    \<and> field_first_won row = (Some (toss_winner row) \<noteq> winner row)
    \<and> (Some (toss_winner row) \<noteq> winner row \<longrightarrow> bat_first_won row \<and> field_first_won row)"
  using assms by (simp add: field_first_won_def bat_first_won_def)

theorem other_decision_both_witness:
  "result odd_decision_match \<notin> {''tie'', ''no result''}
   \<and> toss_decision odd_decision_match \<noteq> ''bat''
   \<and> toss_decision odd_decision_match \<noteq> ''field''
   \<and> Some (toss_winner odd_decision_match) \<noteq> winner odd_decision_match
   \<and> bat_first_won odd_decision_match \<and> field_first_won odd_decision_match"
proof -
  have h: "result odd_decision_match \<notin> {''tie'', ''no result''}"
    "toss_decision odd_decision_match \<noteq> ''bat''"
    "toss_decision odd_decision_match \<noteq> ''field''"
    by (simp_all add: odd_decision_match_def)
  have w: "Some (toss_winner odd_decision_match) \<noteq> winner odd_decision_match"
    by (simp add: odd_decision_match_def)
  from other_decision_both [OF h] h w show ?thesis by simp
qed

section \<open>Facts about the primitives\<close>

lemma set_unique: "set (unique xs) = set xs"
  by (simp add: unique_def)

lemma set_head_subset: "set (head n xs) \<subseteq> set xs"
  by (simp add: head_def set_take_subset)

lemma set_sort_values_desc: "set (sort_values_desc f xs) = set xs"
  by (simp add: sort_values_desc_def)

lemma in_head_sorted: "x \<in> set (head n (sort_values_desc f xs)) \<Longrightarrow> x \<in> set xs"
  using set_head_subset [of n "sort_values_desc f xs"] by (auto simp: set_sort_values_desc)

lemma groupby_mem:
  "(k, g) \<in> set (groupby key rows) \<longleftrightarrow> k \<in> key ` set rows \<and> g = filter (\<lambda>r. key r = k) rows"
  by (auto simp: groupby_def)

lemma set_merge_inner:
  "set (merge_inner lkey rkey left right) =
     {(l, r). l \<in> set left \<and> r \<in> set right \<and> rkey r = lkey l}"
  by (auto simp: merge_inner_def)

lemma value_counts_keys: "(k, n) \<in> set (value_counts col) \<Longrightarrow> Some k \<in> set col"
  by (auto simp: value_counts_def Let_def set_sort_values_desc set_unique split: option.splits)

lemma sum_bool_map: "sum_bool snd (map (\<lambda>r. (r, c r)) rows) = sum_bool c rows"
  by (simp add: sum_bool_def comp_def)

lemma filter_map_pair:
  "filter (\<lambda>r. key (fst r) = k) (map (\<lambda>r. (r, c r)) rows) = map (\<lambda>r. (r, c r)) (filter (\<lambda>r. key r = k) rows)"
  by (induction rows) auto

lemma filter_cong_set: "\<forall>x \<in> set xs. P x = Q x \<Longrightarrow> filter P xs = filter Q xs"
  by (induction xs) auto

lemma filter_key_distinct:
  "distinct (map f xs) \<Longrightarrow> filter (\<lambda>x. f x = k) xs = (case List.find (\<lambda>x. f x = k) xs of None \<Rightarrow> [] | Some x \<Rightarrow> [x])"
proof (induction xs)
  case Nil
  then show ?case by simp
next
  case (Cons a xs)
  show ?case
  proof (cases "f a = k")
    case True
    from Cons.prems have "f a \<notin> f ` set xs" by simp
    then have "\<forall>x \<in> set xs. f x \<noteq> f a" by (metis imageI)
    with True have "filter (\<lambda>x. f x = k) xs = []"
      by (simp add: filter_empty_conv)
    with True show ?thesis by simp
  next
    case False
    with Cons show ?thesis by simp
  qed
qed

lemma merge_left_distinct:
  assumes "distinct (map m_id ms)"
  shows "merge_left ds ms = map (\<lambda>d. (d, List.find (\<lambda>m. m_id m = match_id d) ms)) ds"
proof (induction ds)
  case Nil
  show ?case by (simp add: merge_left_def)
next
  case (Cons d ds)
  have "(case filter (\<lambda>m. m_id m = match_id d) ms of
            [] \<Rightarrow> [(d, None)] | hits \<Rightarrow> map (\<lambda>m. (d, Some m)) hits)
        = [(d, List.find (\<lambda>m. m_id m = match_id d) ms)]"
    by (simp add: filter_key_distinct [OF assms] split: option.splits)
  moreover have "merge_left (d # ds) ms =
      (case filter (\<lambda>m. m_id m = match_id d) ms of
            [] \<Rightarrow> [(d, None)] | hits \<Rightarrow> map (\<lambda>m. (d, Some m)) hits) @ merge_left ds ms"
    by (simp add: merge_left_def)
  ultimately show ?case using Cons.IH by simp
qed

section \<open>The join\<close>

text \<open>
  C9: when the match ids are unique, the left join has exactly one row per delivery, in
  delivery order. The row of a delivery whose \<open>match_id\<close> is no match's id has a null
  match side; the row of a delivery whose \<open>match_id\<close> is the id of a match carries
  that match.
\<close>

theorem merge_left_keeps_every_delivery:
  assumes "distinct (map m_id ms)"
  shows "length (merge_left ds ms) = length ds
    \<and> map fst (merge_left ds ms) = ds
    \<and> (\<forall>i < length ds. match_id (ds ! i) \<notin> m_id ` set ms \<longrightarrow> merge_left ds ms ! i = (ds ! i, None))
    \<and> (\<forall>i < length ds. \<forall>m \<in> set ms. m_id m = match_id (ds ! i) \<longrightarrow> merge_left ds ms ! i = (ds ! i, Some m))"
proof -
  note eq = merge_left_distinct [OF assms, of ds]
  have a: "length (merge_left ds ms) = length ds" by (simp add: eq)
  have b: "map fst (merge_left ds ms) = ds" by (simp add: eq comp_def)
  have c: "merge_left ds ms ! i = (ds ! i, None)"
    if "i < length ds" "match_id (ds ! i) \<notin> m_id ` set ms" for i
  proof -
    from that(2) have "\<forall>m \<in> set ms. m_id m \<noteq> match_id (ds ! i)" by (metis imageI)
    then have "List.find (\<lambda>m. m_id m = match_id (ds ! i)) ms = None"
      by (simp add: find_None_iff)
    with that(1) show ?thesis by (simp add: eq)
  qed
  have d: "merge_left ds ms ! i = (ds ! i, Some m)"
    if "i < length ds" "m \<in> set ms" "m_id m = match_id (ds ! i)" for i m
  proof -
    from that(2,3) obtain m' where f: "List.find (\<lambda>m. m_id m = match_id (ds ! i)) ms = Some m'"
      by (cases "List.find (\<lambda>m. m_id m = match_id (ds ! i)) ms") (auto simp: find_None_iff)
    then have "m' \<in> set ms" "m_id m' = match_id (ds ! i)"
      by (auto simp: find_Some_iff)
    with that(2,3) assms have "m' = m"
      by (metis distinct_map inj_onD)
    with f that(1) show ?thesis by (simp add: eq)
  qed
  from a b c d show ?thesis by blast
qed

theorem merge_left_keeps_every_delivery_witness:
  "distinct (map m_id ex_matches)
   \<and> length (merge_left ex_orphans ex_matches) = length ex_orphans
   \<and> match_id (ex_orphans ! 0) \<notin> m_id ` set ex_matches
   \<and> merge_left ex_orphans ex_matches ! 0 = (ex_orphans ! 0, None)
   \<and> merge_left ex_orphans ex_matches ! 1 = (ex_orphans ! 1, Some (ex_matches ! 0))"
proof -
  have d: "distinct (map m_id ex_matches)" by code_simp
  have h: "0 < length ex_orphans" "1 < length ex_orphans"
    "match_id (ex_orphans ! 0) \<notin> m_id ` set ex_matches"
    "ex_matches ! 0 \<in> set ex_matches" "m_id (ex_matches ! 0) = match_id (ex_orphans ! 1)"
    by code_simp+
  from merge_left_keeps_every_delivery [OF d, of ex_orphans] d h show ?thesis by blast
qed

section \<open>Veteran filters\<close>

lemma in_early_seasons:
  assumes "m \<in> set ms" and "between (year m) 2008 2012"
  shows "m_id m \<in> set (early_seasons ms)"
proof -
  from assms have "m \<in> set (filter (\<lambda>m. between (year m) 2008 2012) ms)" by simp
  then have "m_id m \<in> m_id ` set (filter (\<lambda>m. between (year m) 2008 2012) ms)"
    by (rule imageI)
  then show ?thesis by (simp add: early_seasons_def set_unique)
qed

lemma in_early_deliveries:
  assumes "d \<in> set ds" and "m \<in> set ms" and "m_id m = match_id d"
    and "between (year m) 2008 2012"
  shows "d \<in> set (early_deliveries ms ds)"
  using assms(1) in_early_seasons [OF assms(2,4)] assms(3)
  by (simp add: early_deliveries_def)

lemma early_players_bat_mem:
  assumes "d \<in> set (early_deliveries ms ds)"
  shows "batter d \<in> set (early_players_bat ms ds)"
  using assms by (simp add: early_players_bat_def set_unique)

lemma early_players_bowl_mem:
  assumes "d \<in> set (early_deliveries ms ds)"
  shows "bowler d \<in> set (early_players_bowl ms ds)"
  using assms by (simp add: early_players_bowl_def set_unique)

lemma top_scorers_key:
  assumes "(k, n) \<in> set (top_scorers ms ds)"
  shows "k \<in> batter ` set (fr1_data ms ds)"
proof -
  from assms have "(k, n) \<in> set (map (\<lambda>(k, g). (k, sum_list (map batsman_runs g)))
          (groupby batter (fr1_data ms ds)))"
    unfolding top_scorers_def by (rule in_head_sorted)
  then obtain g where "(k, g) \<in> set (groupby batter (fr1_data ms ds))" by auto
  then show ?thesis by (simp add: groupby_mem)
qed

lemma top_bowlers_key:
  assumes "(k, n) \<in> set (top_bowlers ms ds)"
  shows "k \<in> bowler ` set (fr4_data ms ds)"
proof -
  from assms have "(k, n) \<in> set (value_counts (map (\<lambda>d. Some (bowler d)) (wickets (fr4_data ms ds))))"
    unfolding top_bowlers_def head_def by (rule in_set_takeD)
  then have "Some k \<in> set (map (\<lambda>d. Some (bowler d)) (wickets (fr4_data ms ds)))"
    by (rule value_counts_keys)
  then show ?thesis by (auto simp: wickets_def)
qed

text \<open>
  C1, as the script computes it. The claim takes the veteran set to be every player who
  batted or bowled in a 2008--2012 match and says none of them appears in the
  exclude-veteran batting query. In the example \<open>P\<close> bowled in the 2009 match, so
  \<open>P\<close> is in \<open>all_veterans\<close>; \<open>P\<close> did not bat there, so \<open>P\<close> is not in
  \<open>early_players_bat\<close>, the only set \<open>fr1_data\<close> removes. \<open>P\<close> bats in 2021 and
  is listed by \<open>top_scorers\<close>, and that delivery fails the veteran-only batting
  filter.
\<close>

theorem bowling_veteran_in_top_scorers:
  "ex_deliveries ! 0 \<in> set ex_deliveries \<and> ex_matches ! 0 \<in> set ex_matches
   \<and> m_id (ex_matches ! 0) = match_id (ex_deliveries ! 0)
   \<and> year (ex_matches ! 0) = Some 2009
   \<and> bowler (ex_deliveries ! 0) = ''P''
   \<and> ''P'' \<in> all_veterans ex_matches ex_deliveries
   \<and> ''P'' \<in> fst ` set (top_scorers ex_matches ex_deliveries)
   \<and> ex_deliveries ! 1 \<in> set (post_2020_data ex_matches ex_deliveries)
   \<and> batter (ex_deliveries ! 1) = ''P''
   \<and> ex_deliveries ! 1 \<notin> set (fr1_vet_data ex_matches ex_deliveries)"
  by code_simp

text \<open>
  C1, amended: the filters are per role. A player who appears as batter in a delivery of
  a match with year in 2008..2012 never appears in \<open>top_scorers\<close> and every post-2020
  delivery that player bats in passes the veteran-only batting filter; a player who appears as
  bowler in such a delivery never appears in \<open>top_bowlers\<close> and every post-2020
  delivery that player bowls passes the veteran-only bowling filter.
\<close>

theorem veterans_role_filtered:
  assumes "d0 \<in> set ds" and "m0 \<in> set ms" and "m_id m0 = match_id d0"
    and "year m0 = Some y" and "2008 \<le> y" and "y \<le> 2012"
  shows "batter d0 \<notin> fst ` set (top_scorers ms ds)
    \<and> bowler d0 \<notin> fst ` set (top_bowlers ms ds)
    \<and> (\<forall>d \<in> set (post_2020_data ms ds). batter d = batter d0 \<longrightarrow> d \<in> set (fr1_vet_data ms ds))
    \<and> (\<forall>d \<in> set (post_2020_data ms ds). bowler d = bowler d0 \<longrightarrow> d \<in> set (fr4_vet_data ms ds))"
proof -
  from assms have b: "between (year m0) 2008 2012" by (simp add: between_def)
  with assms(1-3) have e: "d0 \<in> set (early_deliveries ms ds)"
    by (rule in_early_deliveries)
  from e have bat: "batter d0 \<in> set (early_players_bat ms ds)"
    by (rule early_players_bat_mem)
  from e have bowl: "bowler d0 \<in> set (early_players_bowl ms ds)"
    by (rule early_players_bowl_mem)
  have 1: "batter d0 \<notin> fst ` set (top_scorers ms ds)"
  proof
    assume "batter d0 \<in> fst ` set (top_scorers ms ds)"
    then obtain n where "(batter d0, n) \<in> set (top_scorers ms ds)" by auto
    then have "batter d0 \<in> batter ` set (fr1_data ms ds)" by (rule top_scorers_key)
    then obtain d where "d \<in> set (fr1_data ms ds)" "batter d = batter d0" by (metis imageE)
    with bat show False by (simp add: fr1_data_def)
  qed
  have 2: "bowler d0 \<notin> fst ` set (top_bowlers ms ds)"
  proof
    assume "bowler d0 \<in> fst ` set (top_bowlers ms ds)"
    then obtain n where "(bowler d0, n) \<in> set (top_bowlers ms ds)" by auto
    then have "bowler d0 \<in> bowler ` set (fr4_data ms ds)" by (rule top_bowlers_key)
    then obtain d where "d \<in> set (fr4_data ms ds)" "bowler d = bowler d0" by (metis imageE)
    with bowl show False by (simp add: fr4_data_def)
  qed
  from bat have 3: "\<forall>d \<in> set (post_2020_data ms ds). batter d = batter d0 \<longrightarrow> d \<in> set (fr1_vet_data ms ds)"
    by (simp add: fr1_vet_data_def)
  from bowl have 4: "\<forall>d \<in> set (post_2020_data ms ds). bowler d = bowler d0 \<longrightarrow> d \<in> set (fr4_vet_data ms ds)"
    by (simp add: fr4_vet_data_def)
  from 1 2 3 4 show ?thesis by blast
qed

theorem veterans_role_filtered_witness:
  "ex_deliveries ! 0 \<in> set ex_deliveries \<and> ex_matches ! 0 \<in> set ex_matches
   \<and> m_id (ex_matches ! 0) = match_id (ex_deliveries ! 0)
   \<and> year (ex_matches ! 0) = Some 2009 \<and> (2008::int) \<le> 2009 \<and> (2009::int) \<le> 2012
   \<and> batter (ex_deliveries ! 0) = ''X'' \<and> bowler (ex_deliveries ! 0) = ''P''
   \<and> ''X'' \<notin> fst ` set (top_scorers ex_matches ex_deliveries)
   \<and> ''P'' \<notin> fst ` set (top_bowlers ex_matches ex_deliveries)
   \<and> ex_deliveries ! 2 \<in> set (post_2020_data ex_matches ex_deliveries)
   \<and> ex_deliveries ! 2 \<in> set (fr1_vet_data ex_matches ex_deliveries)
   \<and> ex_deliveries ! 2 \<in> set (fr4_vet_data ex_matches ex_deliveries)"
proof -
  have h: "ex_deliveries ! 0 \<in> set ex_deliveries" "ex_matches ! 0 \<in> set ex_matches"
    "m_id (ex_matches ! 0) = match_id (ex_deliveries ! 0)"
    "year (ex_matches ! 0) = Some 2009" "(2008::int) \<le> 2009" "(2009::int) \<le> 2012"
    by code_simp+
  have e: "batter (ex_deliveries ! 0) = ''X''" "bowler (ex_deliveries ! 0) = ''P''"
    "batter (ex_deliveries ! 2) = ''X''" "bowler (ex_deliveries ! 2) = ''P''"
    "ex_deliveries ! 2 \<in> set (post_2020_data ex_matches ex_deliveries)"
    by code_simp+
  from veterans_role_filtered [OF h] h e show ?thesis by metis
qed

section \<open>Coach statistics\<close>

lemma vet_perf_row:
  assumes "r \<in> set (vet_perf ms ds)"
  shows "\<exists>d \<in> set ds. match_id d = vp_id r \<and> batter d = player r \<and> batting_team d = team r"
    and "pt_match_id r = vp_id r"
    and "won r = (Some (team r) = vp_winner r)"
    and "player r \<in> all_veterans ms ds"
proof -
  from assms obtain t m where tm: "t \<in> set (vet_teams ms ds)" "m \<in> set ms" "m_id m = pt_match_id t"
    and r: "r = \<lparr> pt_match_id = pt_match_id t, player = player t, team = team t,
              vp_id = m_id m, vp_winner = winner m,
              bat_first_win = bat_first_won m, field_first_win = field_first_won m,
              won = (Some (team t) = winner m) \<rparr>"
    by (auto simp: vet_perf_def set_merge_inner)
  from tm(1) obtain d where d: "d \<in> set ds"
    "t = \<lparr> pt_match_id = match_id d, player = batter d, team = batting_team d \<rparr>"
    by (auto simp: vet_teams_def batters_def set_unique)
  from d r tm(3) show "\<exists>d \<in> set ds. match_id d = vp_id r \<and> batter d = player r \<and> batting_team d = team r"
    by auto
  from r tm(3) show "pt_match_id r = vp_id r" by simp
  from r show "won r = (Some (team r) = vp_winner r)" by simp
  from tm(1) r show "player r \<in> all_veterans ms ds" by (simp add: vet_teams_def)
qed

lemma vet_perf_full_row:
  assumes "r \<in> set (vet_perf_full ms ds)"
  shows "\<exists>v \<in> set (vet_perf ms ds). \<exists>m \<in> set ms. m_id m = vp_id v \<and>
           player r = player v \<and> team r = team v \<and> vp_id r = vp_id v \<and> won r = won v
           \<and> vp_winner r = vp_winner v
           \<and> vf_toss_winner r = toss_winner m \<and> vf_toss_decision r = toss_decision m"
proof -
  from assms obtain v m where vm: "v \<in> set (vet_perf ms ds)" "m \<in> set ms" "m_id m = vp_id v"
    and r: "r = \<lparr> pt_match_id = pt_match_id v, player = player v, team = team v,
              vp_id = vp_id v, vp_winner = vp_winner v,
              bat_first_win = bat_first_win v, field_first_win = field_first_win v,
              won = won v,
              vf_toss_winner = toss_winner m, vf_toss_decision = toss_decision m \<rparr>"
    by (auto simp: vet_perf_full_def set_merge_inner)
  from r have "player r = player v \<and> team r = team v \<and> vp_id r = vp_id v \<and> won r = won v
           \<and> vp_winner r = vp_winner v
           \<and> vf_toss_winner r = toss_winner m \<and> vf_toss_decision r = toss_decision m"
    by simp
  with vm show ?thesis by blast
qed

lemma no_row_for_unmapped:
  assumes "\<forall>d \<in> set ds. match_id d = mid \<longrightarrow> batter d \<noteq> p"
  shows "\<forall>r \<in> set (vet_perf ms ds). player r = p \<longrightarrow> vp_id r \<noteq> mid"
    and "\<forall>r \<in> set (vet_perf_full ms ds). player r = p \<longrightarrow> vp_id r \<noteq> mid"
proof -
  show a: "\<forall>r \<in> set (vet_perf ms ds). player r = p \<longrightarrow> vp_id r \<noteq> mid"
    using assms vet_perf_row(1) by metis
  show "\<forall>r \<in> set (vet_perf_full ms ds). player r = p \<longrightarrow> vp_id r \<noteq> mid"
    using a vet_perf_full_row by metis
qed

lemma top_coaches_win_row:
  assumes "w \<in> set (top_coaches_win ms ds)"
  shows "ws_matches w = int (length (filter (\<lambda>r. player r = ws_player w) (vet_perf ms ds)))
    \<and> ws_wins w = sum_bool won (filter (\<lambda>r. player r = ws_player w) (vet_perf ms ds))"
proof -
  from assms have "w \<in> set (vet_win_stats ms ds)"
    unfolding top_coaches_win_def by (rule in_head_sorted)
  then obtain k g where "(k, g) \<in> set (groupby player (vet_perf ms ds))"
    and "w = \<lparr> ws_player = k, ws_matches = int (length g), ws_wins = sum_bool won g,
              win_pct = fmul (truediv (sum_bool won g) (int (length g))) 100 \<rparr>"
    by (auto simp: vet_win_stats_def)
  then show ?thesis by (simp add: groupby_mem)
qed

lemma chase_stats_row:
  assumes "(k, n) \<in> set (chase_stats ms ds)"
  shows "n = sum_bool check_chase (filter (\<lambda>r. player r = k) (vet_perf_full ms ds))"
proof -
  from assms have "(k, n) \<in> set (map (\<lambda>(k, g). (k, sum_bool snd g))
          (groupby (\<lambda>r. player (fst r)) (chase_win ms ds)))"
    unfolding chase_stats_def by (rule in_head_sorted)
  then obtain g where "(k, g) \<in> set (groupby (\<lambda>r. player (fst r)) (chase_win ms ds))"
    and "n = sum_bool snd g"
    by auto
  then show ?thesis
    by (simp add: groupby_mem chase_win_def filter_map_pair sum_bool_map)
qed

lemma experience_row:
  assumes "(k, n) \<in> set (experience ms ds)"
  shows "n = int (length (filter (\<lambda>r. player r = k) (vet_perf ms ds)))"
proof -
  from assms have "(k, n) \<in> set (map (\<lambda>(k, g). (k, int (length (map vp_id g))))
          (groupby player (vet_perf ms ds)))"
    unfolding experience_def by (rule in_head_sorted)
  then obtain g where "(k, g) \<in> set (groupby player (vet_perf ms ds))"
    and "n = int (length g)"
    by auto
  then show ?thesis by (simp add: groupby_mem)
qed

text \<open>
  C4: \<open>check_chase\<close> is true exactly when the row is a win and either the toss
  decision is \<open>field\<close> and the toss winner is the row's team, or the toss decision is
  \<open>bat\<close> and the toss winner is not the row's team. The \<open>chase_win\<close> column is
  \<open>check_chase\<close> of each row of \<open>vet_perf_full\<close>, every entry of \<open>chase_stats\<close>
  is the number of such rows of its player, and on those rows \<open>won\<close> is
  \<open>team == winner\<close>. The placeholder \<open>is_chase_win\<close> is not applied.
\<close>

theorem check_chase_formula:
  "check_chase row =
     (won row \<and> ((vf_toss_decision row = ''field'' \<and> vf_toss_winner row = team row)
                \<or> (vf_toss_decision row = ''bat'' \<and> vf_toss_winner row \<noteq> team row)))
   \<and> map snd (chase_win ms ds) = map check_chase (vet_perf_full ms ds)
   \<and> (\<forall>kn \<in> set (chase_stats ms ds).
         snd kn = sum_bool check_chase (filter (\<lambda>r. player r = fst kn) (vet_perf_full ms ds)))
   \<and> (\<forall>r \<in> set (vet_perf_full ms ds). won r = (Some (team r) = vp_winner r))"
proof -
  have a: "check_chase row =
     (won row \<and> ((vf_toss_decision row = ''field'' \<and> vf_toss_winner row = team row)
                \<or> (vf_toss_decision row = ''bat'' \<and> vf_toss_winner row \<noteq> team row)))"
    by (auto simp: check_chase_def)
  have b: "map snd (chase_win ms ds) = map check_chase (vet_perf_full ms ds)"
    by (simp add: chase_win_def comp_def)
  have c: "\<forall>kn \<in> set (chase_stats ms ds).
         snd kn = sum_bool check_chase (filter (\<lambda>r. player r = fst kn) (vet_perf_full ms ds))"
    using chase_stats_row [of _ _ ms ds] by (metis prod.collapse)
  have d: "\<forall>r \<in> set (vet_perf_full ms ds). won r = (Some (team r) = vp_winner r)"
  proof
    fix r assume "r \<in> set (vet_perf_full ms ds)"
    from vet_perf_full_row [OF this] obtain v where v: "v \<in> set (vet_perf ms ds)"
      "team r = team v" "won r = won v" "vp_winner r = vp_winner v" by blast
    from vet_perf_row(3) [OF v(1)] v(2-4) show "won r = (Some (team r) = vp_winner r)" by simp
  qed
  from a b c d show ?thesis by blast
qed

theorem check_chase_formula_witness:
  "ex_chase_row \<in> set (vet_perf_full ex_matches ex_deliveries)
   \<and> won ex_chase_row \<and> vf_toss_decision ex_chase_row = ''bat''
   \<and> vf_toss_winner ex_chase_row \<noteq> team ex_chase_row
   \<and> check_chase ex_chase_row
   \<and> Some (team ex_chase_row) = vp_winner ex_chase_row
   \<and> (''P'', 1) \<in> set (chase_stats ex_matches ex_deliveries)
   \<and> sum_bool check_chase (filter (\<lambda>r. player r = ''P'') (vet_perf_full ex_matches ex_deliveries)) = 1"
proof -
  have m: "ex_chase_row \<in> set (vet_perf_full ex_matches ex_deliveries)"
    by code_simp
  have w: "won ex_chase_row" "vf_toss_decision ex_chase_row = ''bat''"
    "vf_toss_winner ex_chase_row \<noteq> team ex_chase_row"
    by (simp_all add: ex_chase_row_def)
  have s: "(''P'', 1) \<in> set (chase_stats ex_matches ex_deliveries)"
    by code_simp
  note t = check_chase_formula [of ex_chase_row ex_matches ex_deliveries]
  from t [THEN conjunct1] w have a: "check_chase ex_chase_row" by simp
  from bspec [OF t [THEN conjunct2, THEN conjunct2, THEN conjunct2] m] w(1)
  have b: "Some (team ex_chase_row) = vp_winner ex_chase_row" by simp
  from bspec [OF t [THEN conjunct2, THEN conjunct2, THEN conjunct1] s]
  have c: "sum_bool check_chase (filter (\<lambda>r. player r = ''P'') (vet_perf_full ex_matches ex_deliveries)) = 1"
    by simp
  from m w a b s c show ?thesis by simp
qed

text \<open>
  C8: if player \<open>p\<close> never appears as batter in a delivery of match \<open>mid\<close>, then
  no row of \<open>vet_perf\<close> or \<open>vet_perf_full\<close> pairs \<open>p\<close> with \<open>mid\<close>; the team of
  every row is the batting team of a delivery in which the row's player bats in the
  row's match; and the entries of \<open>p\<close> in the win table, the chase table and the
  experience table are computed from the rows of other matches only.
\<close>

theorem unmapped_pair_not_counted:
  assumes "\<forall>d \<in> set ds. match_id d = mid \<longrightarrow> batter d \<noteq> p"
  shows "(\<forall>r \<in> set (vet_perf ms ds). player r = p \<longrightarrow> vp_id r \<noteq> mid)
    \<and> (\<forall>r \<in> set (vet_perf_full ms ds). player r = p \<longrightarrow> vp_id r \<noteq> mid)
    \<and> (\<forall>r \<in> set (vet_perf ms ds).
          \<exists>d \<in> set ds. match_id d = vp_id r \<and> batter d = player r \<and> batting_team d = team r)
    \<and> (\<forall>w \<in> set (top_coaches_win ms ds). ws_player w = p \<longrightarrow>
          ws_matches w = int (length (filter (\<lambda>r. player r = p \<and> vp_id r \<noteq> mid) (vet_perf ms ds)))
          \<and> ws_wins w = sum_bool won (filter (\<lambda>r. player r = p \<and> vp_id r \<noteq> mid) (vet_perf ms ds)))
    \<and> (\<forall>kn \<in> set (chase_stats ms ds). fst kn = p \<longrightarrow>
          snd kn = sum_bool check_chase
                     (filter (\<lambda>r. player r = p \<and> vp_id r \<noteq> mid) (vet_perf_full ms ds)))
    \<and> (\<forall>kn \<in> set (experience ms ds). fst kn = p \<longrightarrow>
          snd kn = int (length (filter (\<lambda>r. player r = p \<and> vp_id r \<noteq> mid) (vet_perf ms ds))))"
proof -
  note no = no_row_for_unmapped [OF assms, of ms]
  have f1: "filter (\<lambda>r. player r = p) (vet_perf ms ds)
      = filter (\<lambda>r. player r = p \<and> vp_id r \<noteq> mid) (vet_perf ms ds)"
    using no(1) by (intro filter_cong_set) blast
  have f2: "filter (\<lambda>r. player r = p) (vet_perf_full ms ds)
      = filter (\<lambda>r. player r = p \<and> vp_id r \<noteq> mid) (vet_perf_full ms ds)"
    using no(2) by (intro filter_cong_set) blast
  have c: "\<forall>r \<in> set (vet_perf ms ds).
          \<exists>d \<in> set ds. match_id d = vp_id r \<and> batter d = player r \<and> batting_team d = team r"
    using vet_perf_row(1) by blast
  have w: "\<forall>w \<in> set (top_coaches_win ms ds). ws_player w = p \<longrightarrow>
          ws_matches w = int (length (filter (\<lambda>r. player r = p \<and> vp_id r \<noteq> mid) (vet_perf ms ds)))
          \<and> ws_wins w = sum_bool won (filter (\<lambda>r. player r = p \<and> vp_id r \<noteq> mid) (vet_perf ms ds))"
    using top_coaches_win_row [of _ ms ds] f1 by metis
  have ch: "\<forall>kn \<in> set (chase_stats ms ds). fst kn = p \<longrightarrow>
          snd kn = sum_bool check_chase
                     (filter (\<lambda>r. player r = p \<and> vp_id r \<noteq> mid) (vet_perf_full ms ds))"
    using chase_stats_row [of _ _ ms ds] f2 by (metis prod.collapse)
  have e: "\<forall>kn \<in> set (experience ms ds). fst kn = p \<longrightarrow>
          snd kn = int (length (filter (\<lambda>r. player r = p \<and> vp_id r \<noteq> mid) (vet_perf ms ds)))"
    using experience_row [of _ _ ms ds] f1 by (metis prod.collapse)
  from no c w ch e show ?thesis by blast
qed

theorem unmapped_pair_not_counted_witness:
  "filter (\<lambda>d. match_id d = 1 \<and> batter d = ''P'') ex_deliveries = []
   \<and> ''P'' \<in> all_veterans ex_matches ex_deliveries
   \<and> filter (\<lambda>r. player r = ''P'' \<and> vp_id r = 1) (vet_perf ex_matches ex_deliveries) = []
   \<and> (''P'', 1) \<in> set (experience ex_matches ex_deliveries)
   \<and> int (length (filter (\<lambda>r. player r = ''P'' \<and> vp_id r \<noteq> 1)
                      (vet_perf ex_matches ex_deliveries))) = 1"
proof -
  have f: "filter (\<lambda>d. match_id d = 1 \<and> batter d = ''P'') ex_deliveries = []"
    by code_simp
  then have h: "\<forall>d \<in> set ex_deliveries. match_id d = 1 \<longrightarrow> batter d \<noteq> ''P''"
    by (simp add: filter_empty_conv)
  have v: "''P'' \<in> all_veterans ex_matches ex_deliveries"
    by code_simp
  have e: "(''P'', 1) \<in> set (experience ex_matches ex_deliveries)"
    by code_simp
  note t = unmapped_pair_not_counted [OF h, of ex_matches]
  from t [THEN conjunct1]
  have n: "filter (\<lambda>r. player r = ''P'' \<and> vp_id r = 1) (vet_perf ex_matches ex_deliveries) = []"
    by (simp add: filter_empty_conv)
  note t6 = t [THEN conjunct2, THEN conjunct2, THEN conjunct2, THEN conjunct2, THEN conjunct2]
  from bspec [OF t6 e]
  have c: "int (length (filter (\<lambda>r. player r = ''P'' \<and> vp_id r \<noteq> 1)
                      (vet_perf ex_matches ex_deliveries))) = 1"
    by simp
  from f v n e c show ?thesis by simp
qed

section \<open>Venue win probabilities\<close>

lemma decided_row_sum:
  assumes "toss_decision m \<in> {''bat'', ''field''}"
  shows "(if bat_first_won m then 1 else 0) + (if field_first_won m then 1 else (0::int))
       = (if result m \<in> {''tie'', ''no result''} then 0 else 1)"
  using assms by (auto simp: bat_first_won_def field_first_won_def)

lemma wins_sum:
  assumes "\<forall>m \<in> set g. toss_decision m \<in> {''bat'', ''field''}"
  shows "sum_bool bat_first_won g + sum_bool field_first_won g
       = int (length (filter (\<lambda>m. result m \<notin> {''tie'', ''no result''}) g))"
  using assms
proof (induction g)
  case Nil
  show ?case by (simp add: sum_bool_def)
next
  case (Cons m g)
  from Cons.prems have d: "toss_decision m \<in> {''bat'', ''field''}" by simp
  from Cons have ih: "sum_bool bat_first_won g + sum_bool field_first_won g
       = int (length (filter (\<lambda>m. result m \<notin> {''tie'', ''no result''}) g))" by simp
  have "sum_bool bat_first_won (m # g) + sum_bool field_first_won (m # g)
      = ((if bat_first_won m then 1 else 0) + (if field_first_won m then 1 else 0))
        + (sum_bool bat_first_won g + sum_bool field_first_won g)"
    by (simp add: sum_bool_def)
  also have "\<dots> = (if result m \<in> {''tie'', ''no result''} then 0 else 1)
        + int (length (filter (\<lambda>m. result m \<notin> {''tie'', ''no result''}) g))"
    by (simp only: decided_row_sum [OF d] ih)
  also have "\<dots> = int (length (filter (\<lambda>m. result m \<notin> {''tie'', ''no result''}) (m # g)))"
    by simp
  finally show ?case .
qed

lemma length_filter_eq_iff: "length (filter P xs) = length xs \<longleftrightarrow> (\<forall>x \<in> set xs. P x)"
  by (metis filter_id_conv length_filter_less less_irrefl)

lemma venue_stats_row:
  assumes "r \<in> set (venue_stats ms)"
  shows "10 \<le> total_matches r"
    and "total_matches r = int (length (filter (\<lambda>m. venue m = vs_venue r) ms))"
    and "bat_first_wins r = sum_bool bat_first_won (filter (\<lambda>m. venue m = vs_venue r) ms)"
    and "field_first_wins r = sum_bool field_first_won (filter (\<lambda>m. venue m = vs_venue r) ms)"
    and "bat_first_pct r = fmul (truediv (bat_first_wins r) (total_matches r)) 100"
    and "field_first_pct r = fmul (truediv (field_first_wins r) (total_matches r)) 100"
proof -
  from assms obtain k n b f where kn: "(k, n, b, f) \<in> set (venue_agg ms)" "10 \<le> n"
    and r: "r = \<lparr> vs_venue = k, total_matches = n, bat_first_wins = b, field_first_wins = f,
              bat_first_pct = fmul (truediv b n) 100,
              field_first_pct = fmul (truediv f n) 100 \<rparr>"
    by (auto simp: venue_stats_def)
  from kn(1) obtain g where g: "(k, g) \<in> set (groupby venue ms)"
    and e: "n = int (length g)" "b = sum_bool bat_first_won g" "f = sum_bool field_first_won g"
    by (auto simp: venue_agg_def)
  from g have gg: "g = filter (\<lambda>m. venue m = k) ms" by (simp add: groupby_mem)
  from r kn(2) show "10 \<le> total_matches r" by simp
  from r e gg show "total_matches r = int (length (filter (\<lambda>m. venue m = vs_venue r) ms))" by simp
  from r e gg show "bat_first_wins r = sum_bool bat_first_won (filter (\<lambda>m. venue m = vs_venue r) ms)" by simp
  from r e gg show "field_first_wins r = sum_bool field_first_won (filter (\<lambda>m. venue m = vs_venue r) ms)" by simp
  from r show "bat_first_pct r = fmul (truediv (bat_first_wins r) (total_matches r)) 100" by simp
  from r show "field_first_pct r = fmul (truediv (field_first_wins r) (total_matches r)) 100" by simp
qed

text \<open>
  C6: when every match has toss decision \<open>bat\<close> or \<open>field\<close>, every row of the venue
  table has at least ten matches, its three counts are the counts over the matches of
  its venue, \<open>bat_first_wins + field_first_wins \<le> total_matches\<close>, and the two sides
  are equal exactly when no match of that venue has result \<open>tie\<close> or \<open>no result\<close>.
\<close>

theorem venue_wins_bounded:
  assumes "\<forall>m \<in> set ms. toss_decision m \<in> {''bat'', ''field''}"
  shows "\<forall>r \<in> set (venue_stats ms).
      10 \<le> total_matches r
    \<and> total_matches r = int (length (filter (\<lambda>m. venue m = vs_venue r) ms))
    \<and> bat_first_wins r = sum_bool bat_first_won (filter (\<lambda>m. venue m = vs_venue r) ms)
    \<and> field_first_wins r = sum_bool field_first_won (filter (\<lambda>m. venue m = vs_venue r) ms)
    \<and> bat_first_wins r + field_first_wins r \<le> total_matches r
    \<and> ((bat_first_wins r + field_first_wins r = total_matches r) =
         (\<forall>m \<in> set ms. venue m = vs_venue r \<longrightarrow> result m \<notin> {''tie'', ''no result''}))"
proof
  fix r assume r: "r \<in> set (venue_stats ms)"
  let ?g = "filter (\<lambda>m. venue m = vs_venue r) ms"
  let ?d = "filter (\<lambda>m. result m \<notin> {''tie'', ''no result''}) ?g"
  note row = venue_stats_row [OF r]
  from assms have "\<forall>m \<in> set ?g. toss_decision m \<in> {''bat'', ''field''}" by simp
  from wins_sum [OF this] row(3,4)
  have s: "bat_first_wins r + field_first_wins r = int (length ?d)" by simp
  have le: "length ?d \<le> length ?g" by (rule length_filter_le)
  have eq: "(length ?d = length ?g) =
      (\<forall>m \<in> set ms. venue m = vs_venue r \<longrightarrow> result m \<notin> {''tie'', ''no result''})"
    unfolding length_filter_eq_iff by auto
  from s le row(2) have a: "bat_first_wins r + field_first_wins r \<le> total_matches r" by simp
  from s row(2) have "(bat_first_wins r + field_first_wins r = total_matches r)
      = (length ?d = length ?g)" by simp
  with eq have b: "(bat_first_wins r + field_first_wins r = total_matches r) =
      (\<forall>m \<in> set ms. venue m = vs_venue r \<longrightarrow> result m \<notin> {''tie'', ''no result''})" by simp
  from row(1-4) a b show "10 \<le> total_matches r
    \<and> total_matches r = int (length (filter (\<lambda>m. venue m = vs_venue r) ms))
    \<and> bat_first_wins r = sum_bool bat_first_won (filter (\<lambda>m. venue m = vs_venue r) ms)
    \<and> field_first_wins r = sum_bool field_first_won (filter (\<lambda>m. venue m = vs_venue r) ms)
    \<and> bat_first_wins r + field_first_wins r \<le> total_matches r
    \<and> ((bat_first_wins r + field_first_wins r = total_matches r) =
         (\<forall>m \<in> set ms. venue m = vs_venue r \<longrightarrow> result m \<notin> {''tie'', ''no result''}))"
    by blast
qed

theorem venue_wins_bounded_witness:
  "filter (\<lambda>m. toss_decision m \<notin> {''bat'', ''field''}) ex_venue_matches = []
   \<and> length (venue_stats ex_venue_matches) = 2
   \<and> vs_venue (venue_stats ex_venue_matches ! 0) = ''V''
   \<and> filter (\<lambda>m. venue m = ''V'' \<and> result m \<in> {''tie'', ''no result''}) ex_venue_matches = []
   \<and> bat_first_wins (venue_stats ex_venue_matches ! 0)
       + field_first_wins (venue_stats ex_venue_matches ! 0)
       = total_matches (venue_stats ex_venue_matches ! 0)
   \<and> vs_venue (venue_stats ex_venue_matches ! 1) = ''W''
   \<and> filter (\<lambda>m. venue m = ''W'' \<and> result m \<in> {''tie'', ''no result''}) ex_venue_matches \<noteq> []
   \<and> bat_first_wins (venue_stats ex_venue_matches ! 1)
       + field_first_wins (venue_stats ex_venue_matches ! 1)
       < total_matches (venue_stats ex_venue_matches ! 1)"
proof -
  let ?vs = "venue_stats ex_venue_matches"
  have f: "filter (\<lambda>m. toss_decision m \<notin> {''bat'', ''field''}) ex_venue_matches = []"
    by code_simp
  then have h: "\<forall>m \<in> set ex_venue_matches. toss_decision m \<in> {''bat'', ''field''}"
    by (simp add: filter_empty_conv)
  have len: "length ?vs = 2" by code_simp
  have v: "vs_venue (?vs ! 0) = ''V''" "vs_venue (?vs ! 1) = ''W''" by code_simp+
  have n0: "filter (\<lambda>m. venue m = ''V'' \<and> result m \<in> {''tie'', ''no result''}) ex_venue_matches = []"
    by code_simp
  have n1: "filter (\<lambda>m. venue m = ''W'' \<and> result m \<in> {''tie'', ''no result''}) ex_venue_matches \<noteq> []"
    by code_simp
  from len have m0: "?vs ! 0 \<in> set ?vs" and m1: "?vs ! 1 \<in> set ?vs" by simp_all
  note t = venue_wins_bounded [OF h]
  note t0 = bspec [OF t m0] and t1 = bspec [OF t m1]
  note eq0 = t0 [THEN conjunct2, THEN conjunct2, THEN conjunct2, THEN conjunct2, THEN conjunct2]
  note le1 = t1 [THEN conjunct2, THEN conjunct2, THEN conjunct2, THEN conjunct2, THEN conjunct1]
  note eq1 = t1 [THEN conjunct2, THEN conjunct2, THEN conjunct2, THEN conjunct2, THEN conjunct2]
  have "\<forall>m \<in> set ex_venue_matches.
      venue m = vs_venue (?vs ! 0) \<longrightarrow> result m \<notin> {''tie'', ''no result''}"
    unfolding v(1) using n0 by (simp add: filter_empty_conv)
  with eq0 have e0: "bat_first_wins (?vs ! 0) + field_first_wins (?vs ! 0) = total_matches (?vs ! 0)"
    by blast
  have "\<not> (\<forall>m \<in> set ex_venue_matches.
      venue m = vs_venue (?vs ! 1) \<longrightarrow> result m \<notin> {''tie'', ''no result''})"
    unfolding v(2) using n1 by (simp add: filter_empty_conv)
  with eq1 have "bat_first_wins (?vs ! 1) + field_first_wins (?vs ! 1) \<noteq> total_matches (?vs ! 1)"
    by blast
  with le1 have e1: "bat_first_wins (?vs ! 1) + field_first_wins (?vs ! 1) < total_matches (?vs ! 1)"
    by linarith
  from f len v n0 n1 e0 e1 show ?thesis by simp
qed

section \<open>Power hitters\<close>

lemma length_head_le: "length (head n xs) \<le> n"
  by (simp add: head_def)

lemma sorted_values_desc:
  fixes f :: "'r \<Rightarrow> 'v::linordered_idom"
  shows "sorted_wrt (\<lambda>a b. f b \<le> f a) (sort_values_desc f xs)"
proof -
  have "sorted (map (\<lambda>r. - f r) (sort_key (\<lambda>r. - f r) xs))" by (rule sorted_sort_key)
  then show ?thesis by (simp add: sort_values_desc_def sorted_map)
qed

lemma sorted_head_desc:
  fixes f :: "'r \<Rightarrow> 'v::linordered_idom"
  shows "sorted_wrt (\<lambda>a b. f b \<le> f a) (head n (sort_values_desc f xs))"
  unfolding head_def using sorted_values_desc [of f xs] by (rule sorted_wrt_take)

lemma head_sort_top:
  fixes f :: "'r \<Rightarrow> 'v::linordered_idom"
  assumes "q \<in> set xs" and "q \<notin> set (head n (sort_values_desc f xs))"
  shows "length (head n (sort_values_desc f xs)) = n
    \<and> (\<forall>r \<in> set (head n (sort_values_desc f xs)). f q \<le> f r)"
proof -
  let ?L = "sort_values_desc f xs"
  from assms(1) have "q \<in> set ?L" by (simp add: set_sort_values_desc)
  then have "q \<in> set (take n ?L) \<union> set (drop n ?L)"
    by (simp only: set_append [symmetric] append_take_drop_id)
  with assms(2) have d: "q \<in> set (drop n ?L)" by (simp add: head_def)
  then have "drop n ?L \<noteq> []" by auto
  then have len: "length (head n ?L) = n" by (simp add: head_def)
  have "sorted_wrt (\<lambda>a b. f b \<le> f a) (take n ?L @ drop n ?L)"
    using sorted_values_desc [of f xs] by simp
  then have "\<forall>r \<in> set (take n ?L). \<forall>y \<in> set (drop n ?L). f y \<le> f r"
    unfolding sorted_wrt_append by blast
  with d have "\<forall>r \<in> set (head n ?L). f q \<le> f r" by (simp add: head_def)
  with len show ?thesis by simp
qed

lemma stats_mem:
  "(k, runs, balls) \<in> set (stats ms ds) \<longleftrightarrow>
     k \<in> batter ` set (post_2020_data ms ds)
     \<and> runs = sum_list (map batsman_runs (filter (\<lambda>d. batter d = k) (post_2020_data ms ds)))
     \<and> balls = int (length (filter (\<lambda>d. batter d = k) (post_2020_data ms ds)))
     \<and> 50 \<le> balls"
  by (auto simp: stats_def groupby_mem)

lemma top_sr_row:
  assumes "r \<in> set (top_sr ms ds)"
  shows "with_strike_rate (sr_batter r, sr_batsman_runs r, sr_ball r) = r"
    and "(sr_batter r, sr_batsman_runs r, sr_ball r) \<in> set (stats ms ds)"
proof -
  from assms have "r \<in> set (map with_strike_rate (stats ms ds))"
    unfolding top_sr_def by (rule in_head_sorted)
  then obtain k runs balls where s: "(k, runs, balls) \<in> set (stats ms ds)"
    and r: "r = with_strike_rate (k, runs, balls)" by auto
  from r show "with_strike_rate (sr_batter r, sr_batsman_runs r, sr_ball r) = r"
    by (simp add: with_strike_rate_def)
  from r s show "(sr_batter r, sr_batsman_runs r, sr_ball r) \<in> set (stats ms ds)"
    by (simp add: with_strike_rate_def)
qed

lemma gt_iff: "gt y n \<longleftrightarrow> (\<exists>v. y = Some v \<and> n < v)"
  by (cases y) (simp_all add: gt_def)

lemma in_post_2020_matches:
  "k \<in> set (post_2020_matches ms) \<longleftrightarrow>
     (\<exists>m \<in> set ms. m_id m = k \<and> (\<exists>y. year m = Some y \<and> 2020 < y))"
proof
  assume "k \<in> set (post_2020_matches ms)"
  then have "k \<in> m_id ` set (filter (\<lambda>m. gt (year m) 2020) ms)"
    by (simp add: post_2020_matches_def set_unique)
  then obtain m where "k = m_id m" "m \<in> set (filter (\<lambda>m. gt (year m) 2020) ms)" ..
  then have "m \<in> set ms \<and> m_id m = k \<and> (\<exists>y. year m = Some y \<and> 2020 < y)"
    by (simp add: gt_iff)
  then show "\<exists>m \<in> set ms. m_id m = k \<and> (\<exists>y. year m = Some y \<and> 2020 < y)" by blast
next
  assume "\<exists>m \<in> set ms. m_id m = k \<and> (\<exists>y. year m = Some y \<and> 2020 < y)"
  then obtain m where m: "m \<in> set ms" "m_id m = k" "\<exists>y. year m = Some y \<and> 2020 < y" by blast
  from m(1,3) have "m \<in> set (filter (\<lambda>m. gt (year m) 2020) ms)" by (simp add: gt_iff)
  then have "m_id m \<in> m_id ` set (filter (\<lambda>m. gt (year m) 2020) ms)" by (rule imageI)
  with m(2) show "k \<in> set (post_2020_matches ms)"
    by (simp add: post_2020_matches_def set_unique)
qed

lemma post_2020_data_eq:
  "post_2020_data ms ds =
     filter (\<lambda>d. \<exists>m \<in> set ms. m_id m = match_id d \<and> (\<exists>y. year m = Some y \<and> 2020 < y)) ds"
  unfolding post_2020_data_def by (rule filter_cong_set) (simp add: in_post_2020_matches)

text \<open>
  C5: the frame the strike-rate table is computed from is the deliveries whose match id
  is the id of a match with year above 2020. Every row of the table has at least 50
  balls; its balls and runs are the count and the sum of \<open>batsman_runs\<close> over the
  deliveries of its batter in that frame, and its strike rate is
  \<open>(runs / balls) * 100\<close> as float64 computes it. The table has at most ten rows, in
  descending order of strike rate, and they are the top ones: a batter with at least 50
  balls in the frame who is not listed is not above any listed row, and then the table
  is full. A batter with fewer than 50 balls in the frame is never listed.
\<close>

theorem top_sr_min_balls:
  "post_2020_data ms ds =
     filter (\<lambda>d. \<exists>m \<in> set ms. m_id m = match_id d \<and> (\<exists>y. year m = Some y \<and> 2020 < y)) ds
   \<and> (\<forall>r \<in> set (top_sr ms ds).
       50 \<le> sr_ball r
     \<and> sr_ball r = int (length (filter (\<lambda>d. batter d = sr_batter r) (post_2020_data ms ds)))
     \<and> sr_batsman_runs r =
         sum_list (map batsman_runs (filter (\<lambda>d. batter d = sr_batter r) (post_2020_data ms ds)))
     \<and> strike_rate r = fmul (truediv (sr_batsman_runs r) (sr_ball r)) 100)
   \<and> length (top_sr ms ds) \<le> 10
   \<and> sorted_wrt (\<lambda>a b. strike_rate b \<le> strike_rate a) (top_sr ms ds)
   \<and> (\<forall>d \<in> set (post_2020_data ms ds).
        50 \<le> length (filter (\<lambda>e. batter e = batter d) (post_2020_data ms ds)) \<longrightarrow>
        batter d \<in> sr_batter ` set (top_sr ms ds)
        \<or> (length (top_sr ms ds) = 10
           \<and> (\<forall>r \<in> set (top_sr ms ds).
                fmul (truediv
                       (sum_list (map batsman_runs
                          (filter (\<lambda>e. batter e = batter d) (post_2020_data ms ds))))
                       (int (length (filter (\<lambda>e. batter e = batter d) (post_2020_data ms ds)))))
                     100 \<le> strike_rate r)))
   \<and> (\<forall>b. length (filter (\<lambda>d. batter d = b) (post_2020_data ms ds)) < 50 \<longrightarrow>
          b \<notin> sr_batter ` set (top_sr ms ds))"
proof -
  let ?P = "post_2020_data ms ds"
  note frame = post_2020_data_eq [of ms ds]
  have rows: "50 \<le> sr_ball r
     \<and> sr_ball r = int (length (filter (\<lambda>d. batter d = sr_batter r) ?P))
     \<and> sr_batsman_runs r = sum_list (map batsman_runs (filter (\<lambda>d. batter d = sr_batter r) ?P))
     \<and> strike_rate r = fmul (truediv (sr_batsman_runs r) (sr_ball r)) 100"
    if "r \<in> set (top_sr ms ds)" for r
  proof -
    note row = top_sr_row [OF that]
    from row(2) have s: "50 \<le> sr_ball r"
      "sr_ball r = int (length (filter (\<lambda>d. batter d = sr_batter r) ?P))"
      "sr_batsman_runs r = sum_list (map batsman_runs (filter (\<lambda>d. batter d = sr_batter r) ?P))"
      by (simp_all add: stats_mem)
    have "strike_rate (with_strike_rate (sr_batter r, sr_batsman_runs r, sr_ball r))
        = fmul (truediv (sr_batsman_runs r) (sr_ball r)) 100"
      by (simp add: with_strike_rate_def)
    with row(1) have "strike_rate r = fmul (truediv (sr_batsman_runs r) (sr_ball r)) 100"
      by simp
    with s show ?thesis by simp
  qed
  have len: "length (top_sr ms ds) \<le> 10"
    unfolding top_sr_def by (rule length_head_le)
  have srt: "sorted_wrt (\<lambda>a b. strike_rate b \<le> strike_rate a) (top_sr ms ds)"
    unfolding top_sr_def by (rule sorted_head_desc)
  have top: "batter d \<in> sr_batter ` set (top_sr ms ds)
        \<or> (length (top_sr ms ds) = 10
           \<and> (\<forall>r \<in> set (top_sr ms ds).
                fmul (truediv
                       (sum_list (map batsman_runs (filter (\<lambda>e. batter e = batter d) ?P)))
                       (int (length (filter (\<lambda>e. batter e = batter d) ?P))))
                     100 \<le> strike_rate r))"
    if d: "d \<in> set ?P" and n: "50 \<le> length (filter (\<lambda>e. batter e = batter d) ?P)" for d
  proof -
    let ?runs = "sum_list (map batsman_runs (filter (\<lambda>e. batter e = batter d) ?P))"
    let ?balls = "int (length (filter (\<lambda>e. batter e = batter d) ?P))"
    let ?q = "with_strike_rate (batter d, ?runs, ?balls)"
    from d have "batter d \<in> batter ` set ?P" by (rule imageI)
    with n have "(batter d, ?runs, ?balls) \<in> set (stats ms ds)" by (simp add: stats_mem)
    then have q: "?q \<in> set (map with_strike_rate (stats ms ds))" by simp
    have qb: "sr_batter ?q = batter d" and qr: "strike_rate ?q = fmul (truediv ?runs ?balls) 100"
      by (simp_all add: with_strike_rate_def)
    show ?thesis
    proof (cases "?q \<in> set (top_sr ms ds)")
      case True
      then have "sr_batter ?q \<in> sr_batter ` set (top_sr ms ds)" by (rule imageI)
      with qb show ?thesis by simp
    next
      case False
      then have "?q \<notin> set (head 10 (sort_values_desc strike_rate (map with_strike_rate (stats ms ds))))"
        by (simp add: top_sr_def)
      from head_sort_top [OF q this]
      have "length (top_sr ms ds) = 10 \<and> (\<forall>r \<in> set (top_sr ms ds). strike_rate ?q \<le> strike_rate r)"
        by (simp add: top_sr_def)
      with qr show ?thesis by simp
    qed
  qed
  have low: "b \<notin> sr_batter ` set (top_sr ms ds)"
    if "length (filter (\<lambda>d. batter d = b) ?P) < 50" for b
  proof
    assume "b \<in> sr_batter ` set (top_sr ms ds)"
    then obtain r where r: "r \<in> set (top_sr ms ds)" "sr_batter r = b" by (metis imageE)
    from rows [OF r(1)] r(2) have "50 \<le> int (length (filter (\<lambda>d. batter d = b) ?P))" by simp
    with that show False by simp
  qed
  from frame rows len srt top low show ?thesis by blast
qed

theorem top_sr_min_balls_witness:
  "length (filter (\<lambda>d. batter d = ''X'') ex_sr_deliveries) = 60
   \<and> filter (\<lambda>d. batter d = ''X'')
        (filter (\<lambda>d. \<exists>m \<in> set ex_matches. m_id m = match_id d
                        \<and> (\<exists>y. year m = Some y \<and> 2020 < y)) ex_sr_deliveries) = []
   \<and> ''X'' \<notin> sr_batter ` set (top_sr ex_matches ex_sr_deliveries)
   \<and> length (filter (\<lambda>d. batter d = ''N'') (post_2020_data ex_matches ex_sr_deliveries)) = 49
   \<and> ''N'' \<notin> sr_batter ` set (top_sr ex_matches ex_sr_deliveries)
   \<and> length (top_sr ex_matches ex_sr_deliveries) = 2
   \<and> sr_batter (top_sr ex_matches ex_sr_deliveries ! 0) = ''P''
   \<and> 50 \<le> sr_ball (top_sr ex_matches ex_sr_deliveries ! 0)
   \<and> strike_rate (top_sr ex_matches ex_sr_deliveries ! 0) = 400
   \<and> sr_batter (top_sr ex_matches ex_sr_deliveries ! 1) = ''Q''
   \<and> sr_batsman_runs (top_sr ex_matches ex_sr_deliveries ! 1) = 7
   \<and> sr_ball (top_sr ex_matches ex_sr_deliveries ! 1) = 50
   \<and> strike_rate (top_sr ex_matches ex_sr_deliveries ! 1) = fmul (truediv 7 50) 100
   \<and> fmul (truediv 7 50) 100 = 14 + 1 / 2 ^ 49"
proof -
  let ?t = "top_sr ex_matches ex_sr_deliveries"
  let ?P = "post_2020_data ex_matches ex_sr_deliveries"
  have x: "length (filter (\<lambda>d. batter d = ''X'') ex_sr_deliveries) = 60"
    by code_simp
  have xp: "filter (\<lambda>d. batter d = ''X'') ?P = []"
    by code_simp
  have n: "length (filter (\<lambda>d. batter d = ''N'') ?P) = 49"
    by code_simp
  have len: "length ?t = 2" by code_simp
  have p: "sr_batter (?t ! 0) = ''P''" "strike_rate (?t ! 0) = 400"
    "sr_batter (?t ! 1) = ''Q''" "sr_batsman_runs (?t ! 1) = 7" "sr_ball (?t ! 1) = 50"
    by code_simp+
  have v: "fmul (truediv 7 50) 100 = 14 + 1 / 2 ^ 49" by code_simp
  from len have m: "?t ! 0 \<in> set ?t" "?t ! 1 \<in> set ?t" by simp_all
  note t = top_sr_min_balls [of ex_matches ex_sr_deliveries]
  note frame = t [THEN conjunct1]
  note rows = t [THEN conjunct2, THEN conjunct1]
  note low = t [THEN conjunct2, THEN conjunct2, THEN conjunct2, THEN conjunct2, THEN conjunct2]
  from xp have xf: "filter (\<lambda>d. batter d = ''X'')
        (filter (\<lambda>d. \<exists>m \<in> set ex_matches. m_id m = match_id d
                        \<and> (\<exists>y. year m = Some y \<and> 2020 < y)) ex_sr_deliveries) = []"
    by (simp only: frame)
  from low [THEN spec, of "''X''"] xp have a: "''X'' \<notin> sr_batter ` set ?t" by simp
  from low [THEN spec, of "''N''"] n have b: "''N'' \<notin> sr_batter ` set ?t" by simp
  from bspec [OF rows m(1)] have c: "50 \<le> sr_ball (?t ! 0)" by (rule conjunct1)
  from bspec [OF rows m(2)] p(4,5) have d: "strike_rate (?t ! 1) = fmul (truediv 7 50) 100"
    by simp
  from x xf a n b len p c d v show ?thesis by (simp only: simp_thms)
qed

section \<open>Unparseable dates\<close>




















end
